theory Spec2Isabelle
  imports Main "HOL-Library.AList"
begin

section \<open>The input pipeline of quicktype-core (input/Inputs.ts)\<close>

text \<open>
  The classes \<open>JSONInput\<close>, \<open>JSONSchemaInput\<close> and \<open>InputData\<close> are embedded with
  explicit state passing. A method that mutates its object returns the object after the
  call together with the error it raised, if any: the object is still there after a
  rejected promise, and some of the properties below are about exactly that state.
  Collaborators that live outside this file (the JSON reader of \<open>CompressedJSON\<close>, the
  URI library, \<open>refsInSchemaForURI\<close>, \<open>addTypesInSchema\<close>) are parameters of the
  functions that call them.
\<close>

subsection \<open>Shared types\<close>

text \<open>
  \<open>StringInput\<close> is either a string or a readable stream; the code tells the two apart
  with \<open>typeof schema === "string"\<close>. A stream is represented by a handle.
\<close>

datatype StringInput = StringValue string | ReadableStream nat

text \<open>
  The ways a call can fail: \<open>panic(message)\<close>, a failed \<open>assert(condition, message)\<close>,
  \<open>messageError("MiscJSONParseError", {description, address, message})\<close>,
  \<open>defined(undefined)\<close>, iterating over a missing array, and a failure raised inside a
  collaborator.
\<close>

datatype error =
    Panic string
  | AssertionFailed string
  | MiscJSONParseError string string string
  | DefinedUndefined
  | TypeError
  | CollaboratorError string

definition defined :: "'a option \<Rightarrow> error + 'a" where
  "defined x = (case x of None \<Rightarrow> Inl DefinedUndefined | Some v \<Rightarrow> Inr v)"

definition withDefault :: "'a option \<Rightarrow> 'a \<Rightarrow> 'a" where
  "withDefault x d = (case x of None \<Rightarrow> d | Some v \<Rightarrow> v)"

text \<open>
  An immutable \<open>OrderedMap\<close> and a JavaScript \<open>Map\<close> keep their keys in insertion order;
  \<open>set\<close> on a key that is present replaces the value where it stands and on a new key
  appends. That is \<open>AList.update\<close> on an association list; \<open>get\<close> is \<open>map_of\<close> and
  \<open>size\<close> is \<open>length\<close>.

  An \<open>OrderedSet\<close> keeps the first occurrence of every element, in insertion order.
\<close>

definition OrderedSet_add :: "'a \<Rightarrow> 'a list \<Rightarrow> 'a list" where
  "OrderedSet_add x xs = (if x \<in> set xs then xs else xs @ [x])"

definition OrderedSet_of :: "'a list \<Rightarrow> 'a list" where
  "OrderedSet_of xs = foldl (\<lambda>s x. OrderedSet_add x s) [] xs"

definition first :: "'a list \<Rightarrow> 'a option" where
  "first xs = (case xs of [] \<Rightarrow> None | x # _ \<Rightarrow> Some x)"

subsection \<open>JSONInput\<close>

record 'v JSONTopLevel =
  samples :: "'v list"
  description :: "string option"

record JSONSourceData =
  sourceName :: string
  sourceSamples :: "StringInput list"
  sourceDescription :: "string option"

text \<open>
  \<open>compressedJSON\<close> is the state of the reader object, \<open>jsonTopLevels\<close> the field
  \<open>_topLevels\<close>. The reader \<open>readFromStream\<close> takes the reader's state and a sample and
  returns the parsed value or the message of the exception it threw, and its new state.
\<close>

record ('v, 'c) JSONInput =
  compressedJSON :: 'c
  jsonTopLevels :: "(string \<times> 'v JSONTopLevel) list"

type_synonym ('v, 'c) reader = "'c \<Rightarrow> StringInput \<Rightarrow> (string + 'v) \<times> 'c"

definition JSONInput_new :: "'c \<Rightarrow> ('v, 'c) JSONInput" where
  "JSONInput_new c = \<lparr>compressedJSON = c, jsonTopLevels = []\<rparr>"

text \<open>
  \<open>addSample\<close> stores a fresh top level with no samples when the name is new, and then
  pushes the sample onto the array of the top level it holds; the two steps are one
  update of the entry here.
\<close>

definition addSample :: "string \<Rightarrow> 'v \<Rightarrow> ('v, 'c) JSONInput \<Rightarrow> ('v, 'c) JSONInput" where
  "addSample topLevelName sample s =
     (let topLevel = (case map_of (jsonTopLevels s) topLevelName of
                        None \<Rightarrow> \<lparr>samples = [], description = None\<rparr>
                      | Some t \<Rightarrow> t)
      in s\<lparr>jsonTopLevels :=
             AList.update topLevelName (topLevel\<lparr>samples := samples topLevel @ [sample]\<rparr>)
               (jsonTopLevels s)\<rparr>)"

definition setDescription ::
  "string \<Rightarrow> string \<Rightarrow> ('v, 'c) JSONInput \<Rightarrow> error + ('v, 'c) JSONInput" where
  "setDescription topLevelName d s =
     (case map_of (jsonTopLevels s) topLevelName of
        None \<Rightarrow> Inl (Panic ''Trying to set description for a top-level that doesn't exist'')
      | Some topLevel \<Rightarrow>
          Inr (s\<lparr>jsonTopLevels :=
                 AList.update topLevelName (topLevel\<lparr>description := Some d\<rparr>)
                   (jsonTopLevels s)\<rparr>))"

text \<open>The loop of \<open>JSONInput.addSource\<close> over the samples that are left.\<close>

fun addSource_samples ::
  "('v, 'c) reader \<Rightarrow> string \<Rightarrow> string option \<Rightarrow> StringInput list \<Rightarrow>
     ('v, 'c) JSONInput \<Rightarrow> error option \<times> ('v, 'c) JSONInput" where
  "addSource_samples rd nm desc [] s = (None, s)"
| "addSource_samples rd nm desc (sample # rest) s =
     (case rd (compressedJSON s) sample of
        (Inl e, c) \<Rightarrow>
          (Some (MiscJSONParseError (withDefault desc ''input'') nm e),
           s\<lparr>compressedJSON := c\<rparr>)
      | (Inr v, c) \<Rightarrow>
          (let s1 = addSample nm v (s\<lparr>compressedJSON := c\<rparr>) in
           case desc of
             None \<Rightarrow> addSource_samples rd nm desc rest s1
           | Some d \<Rightarrow>
               (case setDescription nm d s1 of
                  Inl err \<Rightarrow> (Some err, s1)
                | Inr s2 \<Rightarrow> addSource_samples rd nm desc rest s2)))"

definition JSONInput_addSource ::
  "('v, 'c) reader \<Rightarrow> JSONSourceData \<Rightarrow> ('v, 'c) JSONInput \<Rightarrow>
     error option \<times> ('v, 'c) JSONInput" where
  "JSONInput_addSource rd source s =
     addSource_samples rd (sourceName source) (sourceDescription source)
       (sourceSamples source) s"

definition JSONInput_singleStringSchemaSource :: "('v, 'c) JSONInput \<Rightarrow> string option" where
  "JSONInput_singleStringSchemaSource s = None"

subsection \<open>JSONSchemaInput\<close>

text \<open>
  A URI object of the URI library is represented by the two things this file does with
  it: \<open>resource\<close> is the string \<open>uri.clone().hash("").toString()\<close>, the URI without its
  fragment, and \<open>fragment\<close> is the fragment. Parsing and normalising a caller's string,
  \<open>new URI(uri).normalize()\<close>, is a parameter of \<open>addSource\<close>; it is taken to give a
  URI for every string.
\<close>

record URI =
  resource :: string
  fragment :: string

type_synonym normalizer = "string \<Rightarrow> URI"

definition hashless :: "URI \<Rightarrow> string" where
  "hashless u = resource u"

text \<open>
  \<open>toDecimal\<close> is the decimal numeral a template string prints for a number, and
  \<open>syntheticPath\<close> the template string of a dash and \<open>size + 1\<close>. \<open>newURI\<close> is
  \<open>new URI(uriPath)\<close> on such a path: a string of a dash and digits is a path, with no
  fragment.
\<close>

definition digitChar :: "nat \<Rightarrow> char" where
  "digitChar d = ''0123456789'' ! d"

function toDecimal :: "nat \<Rightarrow> string" where
  "toDecimal n = (if n < 10 then [digitChar n] else toDecimal (n div 10) @ [digitChar (n mod 10)])"
  by pat_completeness auto
termination
  by (relation "measure id") auto

declare toDecimal.simps [simp del]

definition syntheticPath :: "nat \<Rightarrow> string" where
  "syntheticPath n = CHR ''-'' # toDecimal (n + 1)"

definition newURI :: "string \<Rightarrow> URI" where
  "newURI uriPath = \<lparr>resource = uriPath, fragment = []\<rparr>"

record JSONSchemaSourceData =
  name :: string
  uris :: "string list option"
  schema :: "StringInput option"
  isConverted :: "bool option"

text \<open>
  A schema store is the one the caller gave (\<open>Delegate\<close>) or an
  \<open>InputJSONSchemaStore\<close> around an optional delegate. The wrapper's \<open>_inputs\<close> is the
  very \<open>Map\<close> object \<open>_schemaInputs\<close> of the input, not a copy, so it is not stored a
  second time: a collaborator that fetches from the store is given the map as well.
\<close>

datatype 'd JSONSchemaStore =
    Delegate 'd
  | InputJSONSchemaStore "'d JSONSchemaStore option"

datatype AttributeProducer =
    descriptionAttributeProducer
  | accessorNamesAttributeProducer
  | AdditionalAttributeProducer nat

record ('d, 'r) JSONSchemaInput =
  schemaStore :: "'d JSONSchemaStore option"
  attributeProducers :: "AttributeProducer list"
  schemaInputs :: "(string \<times> StringInput) list"
  schemaSources :: "(URI \<times> JSONSchemaSourceData) list"
  topLevels :: "(string \<times> 'r) list"
  needIR :: bool

definition JSONSchemaInput_new ::
  "'d JSONSchemaStore option \<Rightarrow> AttributeProducer list \<Rightarrow> ('d, 'r) JSONSchemaInput" where
  "JSONSchemaInput_new givenSchemaStore additionalAttributeProducers =
     \<lparr>schemaStore = givenSchemaStore,
      attributeProducers =
        [descriptionAttributeProducer, accessorNamesAttributeProducer] @
          additionalAttributeProducers,
      schemaInputs = [],
      schemaSources = [],
      topLevels = [],
      needIR = False\<rparr>"


text \<open>
  The first half of \<open>addSource\<close>: the synthetic path and the normalized URIs of a
  source. \<open>path(uriPath)\<close> is only ever called on a URI whose string without the
  fragment is empty, where it makes that string the path.
\<close>

definition uriPath :: "('d, 'r) JSONSchemaInput \<Rightarrow> string" where
  "uriPath s = syntheticPath (length (schemaInputs s))"

definition normalizedURIs ::
  "normalizer \<Rightarrow> JSONSchemaSourceData \<Rightarrow> ('d, 'r) JSONSchemaInput \<Rightarrow> URI list" where
  "normalizedURIs nrm schemaSource s =
     (case uris schemaSource of
        None \<Rightarrow> [newURI (uriPath s)]
      | Some us \<Rightarrow>
          map (\<lambda>uri. let normalizedURI = nrm uri in
                      if hashless normalizedURI = []
                      then normalizedURI\<lparr>resource := uriPath s\<rparr>
                      else normalizedURI) us)"

definition setSchemaInputs ::
  "URI list \<Rightarrow> StringInput \<Rightarrow> (string \<times> StringInput) list \<Rightarrow> (string \<times> StringInput) list" where
  "setSchemaInputs us sch m = foldl (\<lambda>m u. AList.update (hashless u) sch m) m us"

definition pushSchemaSources ::
  "URI list \<Rightarrow> JSONSchemaSourceData \<Rightarrow> ('d, 'r) JSONSchemaInput \<Rightarrow> ('d, 'r) JSONSchemaInput" where
  "pushSchemaSources us schemaSource s =
     s\<lparr>schemaSources := schemaSources s @ map (\<lambda>u. (u, schemaSource)) us\<rparr>"

definition JSONSchemaInput_addSource ::
  "normalizer \<Rightarrow> JSONSchemaSourceData \<Rightarrow> ('d, 'r) JSONSchemaInput \<Rightarrow>
     error option \<times> ('d, 'r) JSONSchemaInput" where
  "JSONSchemaInput_addSource nrm schemaSource s =
     (let s1 = (if isConverted schemaSource \<noteq> Some True then s\<lparr>needIR := True\<rparr> else s);
          us = normalizedURIs nrm schemaSource s1
      in case schema schemaSource of
           None \<Rightarrow>
             (if uris schemaSource \<noteq> None
              then (None, pushSchemaSources us schemaSource s1)
              else (Some (AssertionFailed
                      ''URIs must be given if schema source is not specified''), s1))
         | Some sch \<Rightarrow>
             (None, pushSchemaSources us schemaSource
                      (s1\<lparr>schemaInputs := setSchemaInputs us sch (schemaInputs s1)\<rparr>)))"





text \<open>
  \<open>addTypes\<close> evaluates \<open>defined(this._schemaStore)\<close> before it calls
  \<open>addTypesInSchema\<close>, which is a parameter: it takes the type builder, the store (and
  the map behind it), the top levels and the attribute producers, and returns the type
  builder or fails.
\<close>

type_synonym ('d, 'r, 'tb) materializer =
  "'tb \<Rightarrow> (string \<times> StringInput) list \<Rightarrow> 'd JSONSchemaStore \<Rightarrow> (string \<times> 'r) list \<Rightarrow>
     AttributeProducer list \<Rightarrow> error + 'tb"

definition JSONSchemaInput_addTypes ::
  "('d, 'r, 'tb) materializer \<Rightarrow> 'tb \<Rightarrow> ('d, 'r) JSONSchemaInput \<Rightarrow> error + 'tb" where
  "JSONSchemaInput_addTypes addTypesInSchema typeBuilder s =
     (case defined (schemaStore s) of
        Inl err \<Rightarrow> Inl err
      | Inr store \<Rightarrow>
          addTypesInSchema typeBuilder (schemaInputs s) store (topLevels s)
            (attributeProducers s))"

text \<open>
  \<open>singleStringSchemaSource\<close>: \<open>every\<close> over the sources, then the \<open>Set\<close> of their
  strings and \<open>defined(set.first())\<close>.
\<close>

definition isString :: "StringInput option \<Rightarrow> bool" where
  "isString x = (case x of Some (StringValue _) \<Rightarrow> True | _ \<Rightarrow> False)"

definition asString :: "StringInput option \<Rightarrow> string" where
  "asString x = (case x of Some (StringValue t) \<Rightarrow> t | _ \<Rightarrow> [])"

definition JSONSchemaInput_singleStringSchemaSource ::
  "('d, 'r) JSONSchemaInput \<Rightarrow> error + string option" where
  "JSONSchemaInput_singleStringSchemaSource s =
     (if \<not> list_all (\<lambda>(_, src). isString (schema src)) (schemaSources s) then Inr None
      else
        (let strings = OrderedSet_of (map (\<lambda>(_, src). asString (schema src)) (schemaSources s))
         in if length strings = 1
            then (case defined (first strings) of Inl err \<Rightarrow> Inl err | Inr t \<Rightarrow> Inr (Some t))
            else Inr None))"

subsection \<open>InputData\<close>

text \<open>
  The registry \<open>_inputs\<close> is an \<open>OrderedSet\<close> of objects compared by identity. An input
  object is its identity together with its current state, which is one of the two
  classes above; a source is the data for one of them.
\<close>

datatype ('v, 'c, 'd, 'r) InputObject =
    JSONInputObject "('v, 'c) JSONInput"
  | JSONSchemaInputObject "('d, 'r) JSONSchemaInput"

record ('v, 'c, 'd, 'r) Input =
  ident :: nat
  object :: "('v, 'c, 'd, 'r) InputObject"

datatype Source = JSONSource JSONSourceData | JSONSchemaSource JSONSchemaSourceData

definition kind :: "('v, 'c, 'd, 'r) Input \<Rightarrow> string" where
  "kind i = (case object i of
               JSONInputObject _ \<Rightarrow> ''json''
             | JSONSchemaInputObject _ \<Rightarrow> ''schema'')"

text \<open>
  \<open>input.addSource(source)\<close>. \<open>InputData.addSource\<close> hands the source to whatever
  object it found under the kind, so an object can be given the other class's source:
  \<open>JSONInput.addSource\<close> then iterates over a \<open>samples\<close> that is undefined, and
  \<open>JSONSchemaInput.addSource\<close> reads \<open>uris\<close>, \<open>schema\<close> and \<open>isConverted\<close> as undefined.
\<close>

definition Input_addSource ::
  "('v, 'c) reader \<Rightarrow> normalizer \<Rightarrow> Source \<Rightarrow> ('v, 'c, 'd, 'r) Input \<Rightarrow>
     error option \<times> ('v, 'c, 'd, 'r) Input" where
  "Input_addSource rd nrm source i =
     (case object i of
        JSONInputObject s \<Rightarrow>
          (case source of
             JSONSource src \<Rightarrow>
               (case JSONInput_addSource rd src s of
                  (err, s') \<Rightarrow> (err, i\<lparr>object := JSONInputObject s'\<rparr>))
           | JSONSchemaSource _ \<Rightarrow> (Some TypeError, i))
      | JSONSchemaInputObject s \<Rightarrow>
          (case JSONSchemaInput_addSource nrm
                  (case source of
                     JSONSchemaSource src \<Rightarrow> src
                   | JSONSource src \<Rightarrow>
                       \<lparr>name = sourceName src, uris = None, schema = None,
                        isConverted = None\<rparr>) s of
             (err, s') \<Rightarrow> (err, i\<lparr>object := JSONSchemaInputObject s'\<rparr>)))"

definition Input_singleStringSchemaSource ::
  "('v, 'c, 'd, 'r) Input \<Rightarrow> error + string option" where
  "Input_singleStringSchemaSource i =
     (case object i of
        JSONInputObject s \<Rightarrow> Inr (JSONInput_singleStringSchemaSource s)
      | JSONSchemaInputObject s \<Rightarrow> JSONSchemaInput_singleStringSchemaSource s)"

definition addInput ::
  "('v, 'c, 'd, 'r) Input \<Rightarrow> ('v, 'c, 'd, 'r) Input list \<Rightarrow> ('v, 'c, 'd, 'r) Input list" where
  "addInput input inputs =
     (if ident input \<in> set (map ident inputs) then inputs else inputs @ [input])"

text \<open>
  \<open>await input.addSource(source)\<close> on the registered object with the identity
  \<open>target\<close>: the object is mutated where it stands in the registry.
\<close>

definition feedSource ::
  "('v, 'c) reader \<Rightarrow> normalizer \<Rightarrow> Source \<Rightarrow> nat \<Rightarrow> ('v, 'c, 'd, 'r) Input list \<Rightarrow>
     error option \<times> ('v, 'c, 'd, 'r) Input list" where
  "feedSource rd nrm source target inputs =
     (case find (\<lambda>j. ident j = target) inputs of
        None \<Rightarrow> (None, inputs)
      | Some input \<Rightarrow>
          (case Input_addSource rd nrm source input of
             (err, input') \<Rightarrow>
               (err, map (\<lambda>j. if ident j = target then input' else j) inputs)))"

text \<open>\<open>makeInput\<close> is represented by the object the factory returns.\<close>

definition InputData_addSource ::
  "('v, 'c) reader \<Rightarrow> normalizer \<Rightarrow> string \<Rightarrow> Source \<Rightarrow> ('v, 'c, 'd, 'r) Input \<Rightarrow>
     ('v, 'c, 'd, 'r) Input list \<Rightarrow> error option \<times> ('v, 'c, 'd, 'r) Input list" where
  "InputData_addSource rd nrm knd source makeInput inputs =
     (case find (\<lambda>i. kind i = knd) inputs of
        Some input \<Rightarrow> feedSource rd nrm source (ident input) inputs
      | None \<Rightarrow> feedSource rd nrm source (ident makeInput) (addInput makeInput inputs))"

text \<open>
  \<open>singleStringSchemaSource\<close> of the registry: \<open>map\<close> on an \<open>OrderedSet\<close> gives the
  \<open>OrderedSet\<close> of the answers, \<open>filter\<close> drops \<open>undefined\<close>.
\<close>

fun mapResults :: "('a \<Rightarrow> error + 'b) \<Rightarrow> 'a list \<Rightarrow> error + 'b list" where
  "mapResults f [] = Inr []"
| "mapResults f (x # xs) =
     (case f x of
        Inl err \<Rightarrow> Inl err
      | Inr y \<Rightarrow> (case mapResults f xs of Inl err \<Rightarrow> Inl err | Inr ys \<Rightarrow> Inr (y # ys)))"

definition InputData_singleStringSchemaSource ::
  "('v, 'c, 'd, 'r) Input list \<Rightarrow> error + string option" where
  "InputData_singleStringSchemaSource inputs =
     (case mapResults Input_singleStringSchemaSource inputs of
        Inl err \<Rightarrow> Inl err
      | Inr answers \<Rightarrow>
          (let schemaStrings = filter (\<lambda>s. s \<noteq> None) (OrderedSet_of answers) in
           if length schemaStrings > 1
           then Inl (Panic ''We have more than one input with a string schema source'')
           else Inr (case first schemaStrings of None \<Rightarrow> None | Some a \<Rightarrow> a)))"

subsection \<open>Sessions and observations used in the statements\<close>

text \<open>
  A sequence of \<open>addSource\<close> calls on one \<open>JSONInput\<close>, each awaited before the next;
  the sequence ends at the first call that fails.
\<close>

fun JSONInput_addSources ::
  "('v, 'c) reader \<Rightarrow> JSONSourceData list \<Rightarrow> ('v, 'c) JSONInput \<Rightarrow>
     error option \<times> ('v, 'c) JSONInput" where
  "JSONInput_addSources rd [] s = (None, s)"
| "JSONInput_addSources rd (d # ds) s =
     (case JSONInput_addSource rd d s of
        (None, s') \<Rightarrow> JSONInput_addSources rd ds s'
      | (Some err, s') \<Rightarrow> (Some err, s'))"

text \<open>
  The values the reader gives for a list of samples read one after the other, when
  every one of them parses, and the reader's state afterwards.
\<close>

fun readSamples :: "('v, 'c) reader \<Rightarrow> 'c \<Rightarrow> StringInput list \<Rightarrow> ('v list \<times> 'c) option" where
  "readSamples rd c [] = Some ([], c)"
| "readSamples rd c (x # xs) =
     (case rd c x of
        (Inl e, c') \<Rightarrow> None
      | (Inr v, c') \<Rightarrow>
          (case readSamples rd c' xs of
             None \<Rightarrow> None
           | Some (vs, c'') \<Rightarrow> Some (v # vs, c'')))"

definition samplesOf :: "string \<Rightarrow> ('v, 'c) JSONInput \<Rightarrow> 'v list" where
  "samplesOf nm s = (case map_of (jsonTopLevels s) nm of None \<Rightarrow> [] | Some t \<Rightarrow> samples t)"

definition descriptionOf :: "string \<Rightarrow> ('v, 'c) JSONInput \<Rightarrow> string option" where
  "descriptionOf nm s =
     (case map_of (jsonTopLevels s) nm of None \<Rightarrow> None | Some t \<Rightarrow> description t)"

text \<open>
  The object after a sequence of \<open>addSource\<close> calls on one \<open>JSONSchemaInput\<close>, whether
  or not a call failed: a caller that stops at a failed call is left with the object
  after a shorter sequence.
\<close>

definition JSONSchemaInput_addSources ::
  "normalizer \<Rightarrow> JSONSchemaSourceData list \<Rightarrow> ('d, 'r) JSONSchemaInput \<Rightarrow>
     ('d, 'r) JSONSchemaInput" where
  "JSONSchemaInput_addSources nrm srcs s =
     foldl (\<lambda>s' src. snd (JSONSchemaInput_addSource nrm src s')) s srcs"










text \<open>
  A call of \<open>InputData.addSource\<close> is its kind, its source and the object its factory
  returns; the registry after a sequence of calls, whether or not a call failed.
\<close>

definition InputData_addSources ::
  "('v, 'c) reader \<Rightarrow> normalizer \<Rightarrow> (string \<times> Source \<times> ('v, 'c, 'd, 'r) Input) list \<Rightarrow>
     ('v, 'c, 'd, 'r) Input list \<Rightarrow> ('v, 'c, 'd, 'r) Input list" where
  "InputData_addSources rd nrm calls inputs =
     foldl (\<lambda>reg (knd, source, makeInput).
              snd (InputData_addSource rd nrm knd source makeInput reg)) inputs calls"

text \<open>
  The answer of one processor to \<open>singleStringSchemaSource\<close>, \<open>None\<close> for
  \<open>undefined\<close>.
\<close>

definition reportedString :: "('v, 'c, 'd, 'r) Input \<Rightarrow> string option" where
  "reportedString i = (case Input_singleStringSchemaSource i of Inl _ \<Rightarrow> None | Inr a \<Rightarrow> a)"

subsection \<open>Collaborators of the examples\<close>

text \<open>
  A reader for the examples: it numbers the values it reads, and throws on the empty
  string and on a stream.
\<close>

definition exampleReader :: "(nat \<times> string, nat) reader" where
  "exampleReader c x =
     (case x of
        StringValue t \<Rightarrow>
          (if t = [] then (Inl ''Unexpected end of JSON input'', c) else (Inr (c, t), Suc c))
      | ReadableStream h \<Rightarrow> (Inl ''stream closed'', c))"

text \<open>
  A normalizer for the examples: what the URI library gives for a string that is in
  normal form already, the text before the first \<open>#\<close> as the URI without its fragment
  and the text after it as the fragment.
\<close>

definition plainURI :: normalizer where
  "plainURI str =
     \<lparr>resource = takeWhile (\<lambda>c. c \<noteq> CHR ''#'') str,
      fragment = drop 1 (dropWhile (\<lambda>c. c \<noteq> CHR ''#'') str)\<rparr>"


text \<open>A materializer for the examples: the type builder collects the top levels.\<close>

definition exampleMaterializer :: "(nat, URI, (string \<times> URI) list) materializer" where
  "exampleMaterializer typeBuilder cache store tls producers = Inr (typeBuilder @ tls)"

section \<open>Properties of JSONInput\<close>

lemma samplesOf_addSample: "samplesOf nm (addSample nm v s) = samplesOf nm s @ [v]"
  by (simp add: samplesOf_def addSample_def update_conv' Let_def split: option.splits)

lemma descriptionOf_addSample: "descriptionOf nm (addSample nm v s) = descriptionOf nm s"
  by (simp add: descriptionOf_def addSample_def update_conv' Let_def split: option.splits)

lemma compressedJSON_addSample: "compressedJSON (addSample nm v s) = compressedJSON s"
  by (simp add: addSample_def Let_def)

lemma present_addSample: "map_of (jsonTopLevels (addSample nm v s)) nm \<noteq> None"
  by (simp add: addSample_def update_conv' Let_def)

lemma setDescription_present:
  assumes "map_of (jsonTopLevels s) nm \<noteq> None"
  shows "\<exists>s'. setDescription nm d s = Inr s' \<and> samplesOf nm s' = samplesOf nm s \<and>
           descriptionOf nm s' = Some d \<and> compressedJSON s' = compressedJSON s \<and>
           map_of (jsonTopLevels s') nm \<noteq> None"
  using assms
  by (auto simp: setDescription_def samplesOf_def descriptionOf_def update_conv')

lemma addSource_samples_append:
  "addSource_samples rd nm desc (xs @ ys) s =
     (case addSource_samples rd nm desc xs s of
        (None, s') \<Rightarrow> addSource_samples rd nm desc ys s'
      | (Some err, s') \<Rightarrow> (Some err, s'))"
proof (induction xs arbitrary: s)
  case Nil
  show ?case by simp
next
  case (Cons x xs)
  show ?case
  proof (cases "rd (compressedJSON s) x")
    case (Pair r c)
    show ?thesis
    proof (cases r)
      case (Inl e)
      with Pair show ?thesis by simp
    next
      case (Inr v)
      show ?thesis
      proof (cases desc)
        case None
        with Pair Inr Cons.IH show ?thesis by (simp add: Let_def)
      next
        case (Some d)
        show ?thesis
        proof (cases "setDescription nm d (addSample nm v (s\<lparr>compressedJSON := c\<rparr>))")
          case (Inl err)
          with Pair Inr Some show ?thesis by (simp add: Let_def)
        next
          case (Inr s2)
          with Pair \<open>r = Inr v\<close> Some Cons.IH show ?thesis by (simp add: Let_def)
        qed
      qed
    qed
  qed
qed

lemma addSource_samples_read:
  assumes "readSamples rd (compressedJSON s) xs = Some (vs, c)"
  shows "\<exists>s'. addSource_samples rd nm desc xs s = (None, s') \<and>
           samplesOf nm s' = samplesOf nm s @ vs \<and>
           compressedJSON s' = c \<and>
           length vs = length xs \<and>
           descriptionOf nm s' = (if xs = [] \<or> desc = None then descriptionOf nm s else desc) \<and>
           (xs \<noteq> [] \<longrightarrow> map_of (jsonTopLevels s') nm \<noteq> None)"
  using assms
proof (induction xs arbitrary: s vs)
  case Nil
  then show ?case by simp
next
  case (Cons x xs)
  from Cons.prems obtain v c1 ws where
    rd: "rd (compressedJSON s) x = (Inr v, c1)" and
    rest: "readSamples rd c1 xs = Some (ws, c)" and
    vs: "vs = v # ws"
    by (auto split: prod.splits sum.splits option.splits)
  define s1 where "s1 = addSample nm v (s\<lparr>compressedJSON := c1\<rparr>)"
  have s1_samples: "samplesOf nm s1 = samplesOf nm s @ [v]"
    unfolding s1_def by (simp add: samplesOf_addSample) (simp add: samplesOf_def)
  have s1_desc: "descriptionOf nm s1 = descriptionOf nm s"
    unfolding s1_def by (simp add: descriptionOf_addSample) (simp add: descriptionOf_def)
  have s1_c: "compressedJSON s1 = c1"
    unfolding s1_def by (simp add: compressedJSON_addSample)
  have s1_present: "map_of (jsonTopLevels s1) nm \<noteq> None"
    unfolding s1_def by (rule present_addSample)
  show ?case
  proof (cases desc)
    case None
    from rest s1_c have "readSamples rd (compressedJSON s1) xs = Some (ws, c)" by simp
    from Cons.IH [OF this] obtain s' where
      run: "addSource_samples rd nm desc xs s1 = (None, s')" and
      props: "samplesOf nm s' = samplesOf nm s1 @ ws" "compressedJSON s' = c"
        "length ws = length xs"
        "descriptionOf nm s' = (if xs = [] \<or> desc = None then descriptionOf nm s1 else desc)"
        "xs \<noteq> [] \<longrightarrow> map_of (jsonTopLevels s') nm \<noteq> None"
      by blast
    have present: "map_of (jsonTopLevels s') nm \<noteq> None"
    proof (cases xs)
      case Nil
      with run s1_present show ?thesis by simp
    next
      case (Cons a list)
      with props(5) show ?thesis by simp
    qed
    have "addSource_samples rd nm desc (x # xs) s = (None, s')"
      using rd run None by (simp add: s1_def Let_def)
    with props present s1_samples s1_desc vs None show ?thesis by simp
  next
    case (Some d)
    from setDescription_present [OF s1_present, of d] obtain s2 where
      sd: "setDescription nm d s1 = Inr s2" and
      s2: "samplesOf nm s2 = samplesOf nm s1" "descriptionOf nm s2 = Some d"
        "compressedJSON s2 = compressedJSON s1" "map_of (jsonTopLevels s2) nm \<noteq> None"
      by blast
    from rest s1_c s2(3) have "readSamples rd (compressedJSON s2) xs = Some (ws, c)" by simp
    from Cons.IH [OF this] obtain s' where
      run: "addSource_samples rd nm desc xs s2 = (None, s')" and
      props: "samplesOf nm s' = samplesOf nm s2 @ ws" "compressedJSON s' = c"
        "length ws = length xs"
        "descriptionOf nm s' = (if xs = [] \<or> desc = None then descriptionOf nm s2 else desc)"
        "xs \<noteq> [] \<longrightarrow> map_of (jsonTopLevels s') nm \<noteq> None"
      by blast
    have present: "map_of (jsonTopLevels s') nm \<noteq> None"
    proof (cases xs)
      case Nil
      with run s2(4) show ?thesis by simp
    next
      case (Cons a list)
      with props(5) show ?thesis by simp
    qed
    have "addSource_samples rd nm desc (x # xs) s = (None, s')"
      using rd run Some sd by (simp add: s1_def Let_def)
    with props present s1_samples s2 vs Some show ?thesis by simp
  qed
qed

lemma readSamples_append:
  "readSamples rd c (xs @ ys) =
     (case readSamples rd c xs of
        None \<Rightarrow> None
      | Some (vs, c') \<Rightarrow>
          (case readSamples rd c' ys of
             None \<Rightarrow> None
           | Some (ws, c'') \<Rightarrow> Some (vs @ ws, c'')))"
  by (induction xs arbitrary: c) (auto split: prod.splits sum.splits option.splits)

lemma JSONInput_addSources_read:
  assumes "list_all (\<lambda>d. sourceName d = nm) ds"
      and "readSamples rd (compressedJSON s) (concat (map sourceSamples ds)) = Some (vs, c)"
  shows "\<exists>s'. JSONInput_addSources rd ds s = (None, s') \<and>
           samplesOf nm s' = samplesOf nm s @ vs \<and>
           length vs = sum_list (map (\<lambda>d. length (sourceSamples d)) ds)"
  using assms
proof (induction ds arbitrary: s vs)
  case Nil
  then show ?case by simp
next
  case (Cons d ds)
  from Cons.prems(2) obtain ws c1 us where
    r1: "readSamples rd (compressedJSON s) (sourceSamples d) = Some (ws, c1)" and
    r2: "readSamples rd c1 (concat (map sourceSamples ds)) = Some (us, c)" and
    vs: "vs = ws @ us"
    by (auto simp: readSamples_append split: option.splits)
  from Cons.prems(1) have nm: "sourceName d = nm" and rest: "list_all (\<lambda>d. sourceName d = nm) ds"
    by simp_all
  from addSource_samples_read [OF r1, of nm "sourceDescription d"] obtain s1 where
    run1: "addSource_samples rd nm (sourceDescription d) (sourceSamples d) s = (None, s1)" and
    p1: "samplesOf nm s1 = samplesOf nm s @ ws" "compressedJSON s1 = c1"
      "length ws = length (sourceSamples d)"
    by blast
  from r2 p1(2) have "readSamples rd (compressedJSON s1) (concat (map sourceSamples ds)) = Some (us, c)"
    by simp
  from Cons.IH [OF rest this] obtain s' where
    run: "JSONInput_addSources rd ds s1 = (None, s')" and
    p: "samplesOf nm s' = samplesOf nm s1 @ us"
      "length us = sum_list (map (\<lambda>d. length (sourceSamples d)) ds)"
    by blast
  have "JSONInput_addSources rd (d # ds) s = (None, s')"
    using run1 run nm by (simp add: JSONInput_addSource_def)
  with p p1 vs show ?case by simp
qed

text \<open>
  C8: for every sequence of \<open>addSource\<close> calls on a \<open>JSONInput\<close> that all target the
  top-level name \<open>nm\<close> and whose samples all parse (read one after the other from the
  reader's current state they give the values \<open>vs\<close>), no call fails, and afterwards the
  sample sequence of the top level \<open>nm\<close> is what it was before followed by \<open>vs\<close>, the
  parsed samples of all calls in submission order; \<open>vs\<close> has as many members as samples
  were submitted across all calls.
\<close>

theorem JSONInput_addSources_concatenates:
  assumes "list_all (\<lambda>d. sourceName d = nm) ds"
      and "readSamples rd (compressedJSON s) (concat (map sourceSamples ds)) = Some (vs, c)"
  shows "fst (JSONInput_addSources rd ds s) = None \<and>
         samplesOf nm (snd (JSONInput_addSources rd ds s)) = samplesOf nm s @ vs \<and>
         length vs = sum_list (map (\<lambda>d. length (sourceSamples d)) ds)"
  using JSONInput_addSources_read [OF assms] by auto

theorem JSONInput_addSources_concatenates_witness:
  "list_all (\<lambda>d. sourceName d = ''Person'')
     [\<lparr>sourceName = ''Person'', sourceSamples = [StringValue ''a'', StringValue ''b''],
       sourceDescription = None\<rparr>,
      \<lparr>sourceName = ''Person'', sourceSamples = [StringValue ''c''],
       sourceDescription = Some ''people''\<rparr>] \<and>
   readSamples exampleReader (compressedJSON (JSONInput_new 0 :: (nat \<times> string, nat) JSONInput))
     (concat (map sourceSamples
       [\<lparr>sourceName = ''Person'', sourceSamples = [StringValue ''a'', StringValue ''b''],
         sourceDescription = None\<rparr>,
        \<lparr>sourceName = ''Person'', sourceSamples = [StringValue ''c''],
         sourceDescription = Some ''people''\<rparr>])) =
     Some ([(0, ''a''), (1, ''b''), (2, ''c'')], 3) \<and>
   samplesOf ''Person''
     (snd (JSONInput_addSources exampleReader
       [\<lparr>sourceName = ''Person'', sourceSamples = [StringValue ''a'', StringValue ''b''],
         sourceDescription = None\<rparr>,
        \<lparr>sourceName = ''Person'', sourceSamples = [StringValue ''c''],
         sourceDescription = Some ''people''\<rparr>] (JSONInput_new 0))) =
     [(0, ''a''), (1, ''b''), (2, ''c'')]"
proof -
  let ?ds = "[\<lparr>sourceName = ''Person'', sourceSamples = [StringValue ''a'', StringValue ''b''],
       sourceDescription = None\<rparr>,
      \<lparr>sourceName = ''Person'', sourceSamples = [StringValue ''c''],
       sourceDescription = Some ''people''\<rparr>]"
  have h1: "list_all (\<lambda>d. sourceName d = ''Person'') ?ds" by simp
  have h2: "readSamples exampleReader (compressedJSON (JSONInput_new 0 :: (nat \<times> string, nat) JSONInput))
      (concat (map sourceSamples ?ds)) = Some ([(0, ''a''), (1, ''b''), (2, ''c'')], 3)"
    by (simp add: exampleReader_def JSONInput_new_def numeral_3_eq_3)
  have s0: "samplesOf ''Person'' (JSONInput_new 0 :: (nat \<times> string, nat) JSONInput) = []"
    by (simp add: samplesOf_def JSONInput_new_def)
  from JSONInput_addSources_concatenates [OF h1 h2]
  have "samplesOf ''Person'' (snd (JSONInput_addSources exampleReader ?ds (JSONInput_new 0))) =
      samplesOf ''Person'' (JSONInput_new 0 :: (nat \<times> string, nat) JSONInput) @
        [(0, ''a''), (1, ''b''), (2, ''c'')]"
    by blast
  then have r: "samplesOf ''Person'' (snd (JSONInput_addSources exampleReader ?ds (JSONInput_new 0))) =
      [(0, ''a''), (1, ''b''), (2, ''c'')]"
    by (simp only: s0 append_Nil)
  show ?thesis by (intro conjI h1 h2 r)
qed

text \<open>
  C10: \<open>JSONInput.addSource\<close> is not atomic. When the samples of a call are \<open>good\<close>,
  which parse to \<open>vs\<close>, then \<open>bad\<close>, on which the reader throws \<open>msg\<close>, then \<open>rest\<close>, the
  call fails with \<open>MiscJSONParseError\<close> as soon as it has read \<open>bad\<close> (the reader is
  left in the state after that read, \<open>rest\<close> is not read), and the object it leaves
  behind holds the values \<open>vs\<close> of the samples before the bad one after the samples
  the top level had, and holds the descriptor's description when there is one and at
  least one sample came before the bad one: whenever \<open>good\<close> is not empty the top levels
  differ from those before the call.
\<close>

theorem JSONInput_addSource_not_atomic:
  assumes "sourceSamples d = good @ bad # rest"
      and "readSamples rd (compressedJSON s) good = Some (vs, c)"
      and "rd c bad = (Inl msg, c')"
  shows "fst (JSONInput_addSource rd d s) =
           Some (MiscJSONParseError (withDefault (sourceDescription d) ''input'')
                   (sourceName d) msg) \<and>
         samplesOf (sourceName d) (snd (JSONInput_addSource rd d s)) =
           samplesOf (sourceName d) s @ vs \<and>
         length vs = length good \<and>
         compressedJSON (snd (JSONInput_addSource rd d s)) = c' \<and>
         descriptionOf (sourceName d) (snd (JSONInput_addSource rd d s)) =
           (if good = [] \<or> sourceDescription d = None
            then descriptionOf (sourceName d) s else sourceDescription d) \<and>
         (good \<noteq> [] \<longrightarrow> jsonTopLevels (snd (JSONInput_addSource rd d s)) \<noteq> jsonTopLevels s)"
proof -
  let ?nm = "sourceName d" and ?desc = "sourceDescription d"
  from addSource_samples_read [OF assms(2), of ?nm ?desc] obtain s1 where
    run1: "addSource_samples rd ?nm ?desc good s = (None, s1)" and
    p1: "samplesOf ?nm s1 = samplesOf ?nm s @ vs" "compressedJSON s1 = c"
      "length vs = length good"
      "descriptionOf ?nm s1 = (if good = [] \<or> ?desc = None then descriptionOf ?nm s else ?desc)"
    by blast
  have run: "JSONInput_addSource rd d s =
      (Some (MiscJSONParseError (withDefault ?desc ''input'') ?nm msg), s1\<lparr>compressedJSON := c'\<rparr>)"
    using run1 assms(1,3) p1(2)
    by (simp add: JSONInput_addSource_def addSource_samples_append)
  have same: "samplesOf ?nm (s1\<lparr>compressedJSON := c'\<rparr>) = samplesOf ?nm s1"
    "descriptionOf ?nm (s1\<lparr>compressedJSON := c'\<rparr>) = descriptionOf ?nm s1"
    by (simp_all add: samplesOf_def descriptionOf_def)
  have changed: "jsonTopLevels (s1\<lparr>compressedJSON := c'\<rparr>) \<noteq> jsonTopLevels s" if "good \<noteq> []"
  proof
    assume "jsonTopLevels (s1\<lparr>compressedJSON := c'\<rparr>) = jsonTopLevels s"
    then have "samplesOf ?nm s1 = samplesOf ?nm s" by (simp add: samplesOf_def)
    with p1(1,3) that show False by simp
  qed
  show ?thesis using run same p1 changed by simp
qed

theorem JSONInput_addSource_not_atomic_witness:
  "readSamples exampleReader (compressedJSON (JSONInput_new 0 :: (nat \<times> string, nat) JSONInput))
     [StringValue ''a'', StringValue ''b''] =
     Some ([(0, ''a''), (1, ''b'')], 2) \<and>
   exampleReader 2 (StringValue []) = (Inl ''Unexpected end of JSON input'', 2) \<and>
   JSONInput_addSource exampleReader
     \<lparr>sourceName = ''Person'',
      sourceSamples = [StringValue ''a'', StringValue ''b''] @ StringValue [] # [StringValue ''c''],
      sourceDescription = Some ''people''\<rparr> (JSONInput_new 0) =
     (Some (MiscJSONParseError ''people'' ''Person'' ''Unexpected end of JSON input''),
      \<lparr>compressedJSON = 2,
       jsonTopLevels =
         [(''Person'', \<lparr>samples = [(0, ''a''), (1, ''b'')], description = Some ''people''\<rparr>)]\<rparr>)"
proof -
  let ?d = "\<lparr>sourceName = ''Person'',
      sourceSamples = [StringValue ''a'', StringValue ''b''] @ StringValue [] # [StringValue ''c''],
      sourceDescription = Some ''people''\<rparr>"
  let ?s = "JSONInput_new 0 :: (nat \<times> string, nat) JSONInput"
  have h1: "sourceSamples ?d = [StringValue ''a'', StringValue ''b''] @ StringValue [] # [StringValue ''c'']"
    by simp
  have h2: "readSamples exampleReader (compressedJSON ?s) [StringValue ''a'', StringValue ''b''] =
     Some ([(0, ''a''), (1, ''b'')], 2)"
    by (simp add: exampleReader_def JSONInput_new_def numeral_2_eq_2)
  have h3: "exampleReader 2 (StringValue []) = (Inl ''Unexpected end of JSON input'', 2)"
    by (simp add: exampleReader_def)
  have run: "JSONInput_addSource exampleReader ?d ?s =
     (Some (MiscJSONParseError ''people'' ''Person'' ''Unexpected end of JSON input''),
      \<lparr>compressedJSON = 2,
       jsonTopLevels =
         [(''Person'', \<lparr>samples = [(0, ''a''), (1, ''b'')], description = Some ''people''\<rparr>)]\<rparr>)"
    by (simp add: JSONInput_addSource_def exampleReader_def JSONInput_new_def addSample_def
        setDescription_def withDefault_def Let_def numeral_2_eq_2)
  from JSONInput_addSource_not_atomic [OF h1 h2 h3]
  have "fst (JSONInput_addSource exampleReader ?d ?s) =
      Some (MiscJSONParseError (withDefault (sourceDescription ?d) ''input'') (sourceName ?d)
              ''Unexpected end of JSON input'')"
    by blast
  with run show ?thesis by (intro conjI h2 h3)
qed

section \<open>Properties of JSONSchemaInput\<close>

subsection \<open>addSource\<close>

lemma syntheticPath_0: "syntheticPath 0 = ''-1''"
  by (simp add: syntheticPath_def toDecimal.simps digitChar_def)

lemma syntheticPath_1: "syntheticPath (Suc 0) = ''-2''"
  by (simp add: syntheticPath_def toDecimal.simps digitChar_def)

lemma uriPath_needIR [simp]: "uriPath (s\<lparr>needIR := b\<rparr>) = uriPath s"
  by (simp add: uriPath_def)

lemma normalizedURIs_needIR [simp]:
  "normalizedURIs nrm src (s\<lparr>needIR := b\<rparr>) = normalizedURIs nrm src s"
  by (simp add: normalizedURIs_def Let_def split: option.splits)


lemma schemaInputs_addSource:
  "schemaInputs (snd (JSONSchemaInput_addSource nrm src s)) =
     (case schema src of
        None \<Rightarrow> schemaInputs s
      | Some sch \<Rightarrow> setSchemaInputs (normalizedURIs nrm src s) sch (schemaInputs s))"
  by (simp add: JSONSchemaInput_addSource_def Let_def pushSchemaSources_def split: option.splits)


lemma unchanged_addSource:
  "schemaStore (snd (JSONSchemaInput_addSource nrm src s)) = schemaStore s"
  "topLevels (snd (JSONSchemaInput_addSource nrm src s)) = topLevels s"
  "attributeProducers (snd (JSONSchemaInput_addSource nrm src s)) = attributeProducers s"
  by (simp_all add: JSONSchemaInput_addSource_def Let_def pushSchemaSources_def split: option.splits)

text \<open>
  C6: the specification has \<open>addSource\<close> fail whenever a source gives neither literal
  schema text nor any URI. On the source with an empty list of URIs and no schema the
  code does not fail: the assertion only asks that \<open>uris\<close> is not undefined. The call
  returns normally and records nothing but \<open>needIR\<close>.
\<close>

theorem JSONSchemaInput_addSource_empty_uris:
  "JSONSchemaInput_addSource plainURI
     \<lparr>name = ''A'', uris = Some [], schema = None, isConverted = None\<rparr>
     (JSONSchemaInput_new None [] :: (nat, URI) JSONSchemaInput) =
   (None,
    \<lparr>schemaStore = None,
     attributeProducers = [descriptionAttributeProducer, accessorNamesAttributeProducer],
     schemaInputs = [], schemaSources = [], topLevels = [], needIR = True\<rparr>)"
  by (simp add: JSONSchemaInput_addSource_def JSONSchemaInput_new_def normalizedURIs_def
      pushSchemaSources_def Let_def)

text \<open>
  Two sources with the same literal text under the URIs \<open>#frag1\<close> and \<open>#frag2\<close>, which
  differ only in their fragment: each one is given the synthetic path of its own call,
  and the text cache ends up with two entries.
\<close>

theorem fragment_only_uris_two_cache_entries:
  "schemaInputs
     (snd (JSONSchemaInput_addSource plainURI
             \<lparr>name = ''B'', uris = Some [''#frag2''], schema = Some (StringValue ''{}''),
              isConverted = None\<rparr>
        (snd (JSONSchemaInput_addSource plainURI
                \<lparr>name = ''A'', uris = Some [''#frag1''], schema = Some (StringValue ''{}''),
                 isConverted = None\<rparr>
           (JSONSchemaInput_new None [] :: (nat, URI) JSONSchemaInput))))) =
   [(''-1'', StringValue ''{}''), (''-2'', StringValue ''{}'')]"
  by (simp add: schemaInputs_addSource normalizedURIs_def uriPath_def setSchemaInputs_def
      hashless_def plainURI_def JSONSchemaInput_new_def syntheticPath_0 syntheticPath_1)

text \<open>
  C7 (amended): two \<open>addSource\<close> calls that supply literal text under one URI each,
  where the two URIs have the same normalized form \<open>u\<close> without the fragment and \<open>u\<close>
  is not empty, on an input whose text cache is empty, leave the cache with exactly one
  entry, keyed by \<open>u\<close>: the first call stores its text under \<open>u\<close> and the second
  call overwrites it.
\<close>

theorem same_document_one_cache_entry:
  assumes "uris src1 = Some [u1]" and "schema src1 = Some t1"
      and "uris src2 = Some [u2]" and "schema src2 = Some t2"
      and "hashless (nrm u1) = u" and "hashless (nrm u2) = u" and "u \<noteq> []"
      and "schemaInputs s = []"
  shows "schemaInputs (snd (JSONSchemaInput_addSource nrm src1 s)) = [(u, t1)] \<and>
         schemaInputs (snd (JSONSchemaInput_addSource nrm src2
                              (snd (JSONSchemaInput_addSource nrm src1 s)))) = [(u, t2)]"
  using assms
  by (simp add: schemaInputs_addSource normalizedURIs_def setSchemaInputs_def Let_def)

theorem same_document_one_cache_entry_witness:
  "hashless (plainURI ''schema://x/a.json#frag1'') = ''schema://x/a.json'' \<and>
   hashless (plainURI ''schema://x/a.json#frag2'') = ''schema://x/a.json'' \<and>
   schemaInputs
     (snd (JSONSchemaInput_addSource plainURI
             \<lparr>name = ''B'', uris = Some [''schema://x/a.json#frag2''],
              schema = Some (StringValue ''{}''), isConverted = None\<rparr>
        (snd (JSONSchemaInput_addSource plainURI
                \<lparr>name = ''A'', uris = Some [''schema://x/a.json#frag1''],
                 schema = Some (StringValue ''{}''), isConverted = None\<rparr>
           (JSONSchemaInput_new None [] :: (nat, URI) JSONSchemaInput))))) =
   [(''schema://x/a.json'', StringValue ''{}'')]"
proof -
  let ?src1 = "\<lparr>name = ''A'', uris = Some [''schema://x/a.json#frag1''],
                 schema = Some (StringValue ''{}''), isConverted = None\<rparr>"
  let ?src2 = "\<lparr>name = ''B'', uris = Some [''schema://x/a.json#frag2''],
              schema = Some (StringValue ''{}''), isConverted = None\<rparr>"
  let ?s = "JSONSchemaInput_new None [] :: (nat, URI) JSONSchemaInput"
  have h1: "uris ?src1 = Some [''schema://x/a.json#frag1'']" by simp
  have h2: "schema ?src1 = Some (StringValue ''{}'')" by simp
  have h3: "uris ?src2 = Some [''schema://x/a.json#frag2'']" by simp
  have h4: "schema ?src2 = Some (StringValue ''{}'')" by simp
  have h5: "hashless (plainURI ''schema://x/a.json#frag1'') = ''schema://x/a.json''"
    by (simp add: hashless_def plainURI_def)
  have h6: "hashless (plainURI ''schema://x/a.json#frag2'') = ''schema://x/a.json''"
    by (simp add: hashless_def plainURI_def)
  have h7: "''schema://x/a.json'' \<noteq> []" by simp
  have h8: "schemaInputs ?s = []" by (simp add: JSONSchemaInput_new_def)
  from same_document_one_cache_entry [OF h1 h2 h3 h4 h5 h6 h7 h8]
  have "schemaInputs (snd (JSONSchemaInput_addSource plainURI ?src2
          (snd (JSONSchemaInput_addSource plainURI ?src1 ?s)))) =
        [(''schema://x/a.json'', StringValue ''{}'')]"
    by (rule conjunct2)
  with h5 h6 show ?thesis by (intro conjI)
qed

subsection \<open>Synthetic paths\<close>

lemma digitChar_inj: "a < 10 \<Longrightarrow> b < 10 \<Longrightarrow> digitChar a = digitChar b \<Longrightarrow> a = b"
proof -
  assume a: "a < 10" and b: "b < 10" and eq: "digitChar a = digitChar b"
  have d: "distinct ''0123456789''" by simp
  have "a < length ''0123456789''" "b < length ''0123456789''" using a b by simp_all
  with d eq show "a = b" unfolding digitChar_def by (simp only: nth_eq_iff_index_eq)
qed

lemma toDecimal_nonempty: "toDecimal n \<noteq> []"
  by (subst toDecimal.simps) simp

lemma toDecimal_inj: "toDecimal m = toDecimal n \<Longrightarrow> m = n"
proof (induction n arbitrary: m rule: toDecimal.induct)
  case (1 n)
  show ?case
  proof (cases "n < 10")
    case True
    then have n: "toDecimal n = [digitChar n]" by (subst toDecimal.simps) simp
    show ?thesis
    proof (cases "m < 10")
      case m: True
      then have "toDecimal m = [digitChar m]" by (subst toDecimal.simps) simp
      with n "1.prems" have "digitChar m = digitChar n" by simp
      with m True show ?thesis by (rule digitChar_inj)
    next
      case False
      then have "toDecimal m = toDecimal (m div 10) @ [digitChar (m mod 10)]"
        by (subst toDecimal.simps) simp
      with n "1.prems" have "toDecimal (m div 10) = []" by simp
      with toDecimal_nonempty show ?thesis by blast
    qed
  next
    case False
    then have n: "toDecimal n = toDecimal (n div 10) @ [digitChar (n mod 10)]"
      by (subst toDecimal.simps) simp
    show ?thesis
    proof (cases "m < 10")
      case True
      then have "toDecimal m = [digitChar m]" by (subst toDecimal.simps) simp
      with n "1.prems" have "toDecimal (n div 10) = []" by simp
      with toDecimal_nonempty show ?thesis by blast
    next
      case m: False
      then have "toDecimal m = toDecimal (m div 10) @ [digitChar (m mod 10)]"
        by (subst toDecimal.simps) simp
      with n "1.prems" have pre: "toDecimal (m div 10) = toDecimal (n div 10)"
        and dig: "digitChar (m mod 10) = digitChar (n mod 10)" by simp_all
      from "1.IH" [OF False pre] have q: "m div 10 = n div 10" .
      have "m mod 10 < 10" "n mod 10 < 10" by simp_all
      with dig have r: "m mod 10 = n mod 10" by (rule digitChar_inj [rotated 2])
      have "m = 10 * (m div 10) + m mod 10" by simp
      also have "\<dots> = 10 * (n div 10) + n mod 10" using q r by simp
      also have "\<dots> = n" by simp
      finally show ?thesis .
    qed
  qed
qed

lemma syntheticPath_inj: "syntheticPath m = syntheticPath n \<Longrightarrow> m = n"
  using toDecimal_inj [of "m + 1" "n + 1"] by (simp add: syntheticPath_def)






lemma distinct_syntheticPaths: "distinct (map syntheticPath [0..<n])"
  by (simp add: distinct_map inj_on_def) (use syntheticPath_inj in blast)




















subsection \<open>The recorded sources of a session\<close>









subsection \<open>addTypes before finishAddingInputs\<close>

lemma addSources_unchanged:
  "schemaStore (JSONSchemaInput_addSources nrm srcs s) = schemaStore s \<and>
   topLevels (JSONSchemaInput_addSources nrm srcs s) = topLevels s \<and>
   attributeProducers (JSONSchemaInput_addSources nrm srcs s) = attributeProducers s"
  unfolding JSONSchemaInput_addSources_def
  by (induction srcs arbitrary: s) (simp_all add: unchanged_addSource)

text \<open>
  An input constructed without a store is given an anonymous source with literal text;
  \<open>addTypes\<close> before \<open>finishAddingInputs\<close> then fails in \<open>defined\<close>.
\<close>

theorem addTypes_before_finish_panics:
  "JSONSchemaInput_addTypes exampleMaterializer []
     (JSONSchemaInput_addSources plainURI
        [\<lparr>name = ''A'', uris = None, schema = Some (StringValue ''{}''), isConverted = None\<rparr>]
        (JSONSchemaInput_new None [])) =
   Inl DefinedUndefined"
  by (simp add: JSONSchemaInput_addTypes_def addSources_unchanged JSONSchemaInput_new_def
      defined_def)

text \<open>
  C9 (amended): after any sequence of \<open>addSource\<close> calls on a new \<open>JSONSchemaInput\<close>
  and before \<open>finishAddingInputs\<close>, the top levels are empty, and \<open>addTypes\<close> fails in
  \<open>defined\<close> when the input was constructed without a schema store and otherwise calls
  \<open>addTypesInSchema\<close> with the given store and the empty top levels.
\<close>

theorem addTypes_before_finish:
  "topLevels (JSONSchemaInput_addSources nrm srcs
     (JSONSchemaInput_new given aps :: ('d, 'r) JSONSchemaInput)) = [] \<and>
   JSONSchemaInput_addTypes addTypesInSchema typeBuilder
     (JSONSchemaInput_addSources nrm srcs
        (JSONSchemaInput_new given aps :: ('d, 'r) JSONSchemaInput)) =
     (case given of
        None \<Rightarrow> Inl DefinedUndefined
      | Some store \<Rightarrow>
          addTypesInSchema typeBuilder
            (schemaInputs (JSONSchemaInput_addSources nrm srcs
               (JSONSchemaInput_new given aps :: ('d, 'r) JSONSchemaInput)))
            store []
            ([descriptionAttributeProducer, accessorNamesAttributeProducer] @ aps))"
  by (simp add: JSONSchemaInput_addTypes_def addSources_unchanged JSONSchemaInput_new_def
      defined_def split: option.splits)

subsection \<open>finishAddingInputs\<close>











subsection \<open>singleStringSchemaSource\<close>

lemma OrderedSet_fold_set:
  "set (foldl (\<lambda>s x. OrderedSet_add x s) acc xs) = set acc \<union> set xs"
  by (induction xs arbitrary: acc) (auto simp: OrderedSet_add_def)

lemma OrderedSet_fold_distinct:
  "distinct acc \<Longrightarrow> distinct (foldl (\<lambda>s x. OrderedSet_add x s) acc xs)"
  by (induction xs arbitrary: acc) (auto simp: OrderedSet_add_def)

lemma set_OrderedSet_of: "set (OrderedSet_of xs) = set xs"
  by (simp add: OrderedSet_of_def OrderedSet_fold_set)

lemma distinct_OrderedSet_of: "distinct (OrderedSet_of xs)"
  by (simp add: OrderedSet_of_def OrderedSet_fold_distinct)

lemma length_OrderedSet_of: "length (OrderedSet_of xs) = card (set xs)"
  using distinct_card [OF distinct_OrderedSet_of, of xs] by (simp add: set_OrderedSet_of)

lemma OrderedSet_of_singleton: "(OrderedSet_of xs = [t]) = (set xs = {t})"
proof
  assume "OrderedSet_of xs = [t]"
  then have "set (OrderedSet_of xs) = {t}" by simp
  then show "set xs = {t}" by (simp add: set_OrderedSet_of)
next
  assume a: "set xs = {t}"
  then have "length (OrderedSet_of xs) = 1" by (simp add: length_OrderedSet_of)
  then obtain y where y: "OrderedSet_of xs = [y]"
    by (cases "OrderedSet_of xs") auto
  then have "set (OrderedSet_of xs) = {y}" by simp
  with a have "y = t" by (simp add: set_OrderedSet_of)
  with y show "OrderedSet_of xs = [t]" by simp
qed

lemma singleton_setI: "A \<noteq> {} \<Longrightarrow> (\<And>x. x \<in> A \<Longrightarrow> x = t) \<Longrightarrow> A = {t}"
  by auto

lemma length_one_singleton: "length xs = 1 \<Longrightarrow> \<exists>t. xs = [t]"
  by (cases xs) auto

lemma isString_iff: "isString x = (\<exists>t. x = Some (StringValue t))"
  by (auto simp: isString_def split: option.splits StringInput.splits)

lemma singleString_Some:
  "(JSONSchemaInput_singleStringSchemaSource s = Inr (Some t)) =
     ((\<lambda>(u, src). schema src) ` set (schemaSources s) = {Some (StringValue t)})"
proof (cases "list_all (\<lambda>(_, src). isString (schema src)) (schemaSources s)")
  case False
  then obtain u src where in_set: "(u, src) \<in> set (schemaSources s)" and
    no: "\<not> isString (schema src)"
    by (auto simp: list_all_iff)
  from no have "schema src \<noteq> Some (StringValue t)" by (auto simp: isString_def)
  with in_set have "(\<lambda>(u, src). schema src) ` set (schemaSources s) \<noteq> {Some (StringValue t)}"
    by force
  with False show ?thesis by (simp add: JSONSchemaInput_singleStringSchemaSource_def)
next
  case True
  let ?strings = "map (\<lambda>(_, src). asString (schema src)) (schemaSources s)"
  have all: "schema src = Some (StringValue (asString (schema src)))"
    if "(u, src) \<in> set (schemaSources s)" for u src
  proof -
    from True that have "isString (schema src)" by (auto simp: list_all_iff)
    then show ?thesis by (auto simp: isString_iff asString_def)
  qed
  have img: "((\<lambda>(u, src). schema src) ` set (schemaSources s) = {Some (StringValue t)}) =
      (set ?strings = {t})"
  proof
    assume a: "(\<lambda>(u, src). schema src) ` set (schemaSources s) = {Some (StringValue t)}"
    have "schema src = Some (StringValue t)" if "(u, src) \<in> set (schemaSources s)" for u src
    proof -
      from that have "schema src \<in> (\<lambda>(u, src). schema src) ` set (schemaSources s)"
        by (rule image_eqI [rotated]) simp
      with a show ?thesis by simp
    qed
    then have "\<And>u src. (u, src) \<in> set (schemaSources s) \<Longrightarrow> schema src = Some (StringValue t)" .
    moreover from a have "schemaSources s \<noteq> []" by auto
    ultimately show "set ?strings = {t}"
      by (intro singleton_setI) (auto simp: asString_def)
  next
    assume a: "set ?strings = {t}"
    then have ne: "schemaSources s \<noteq> []" by auto
    have "schema src = Some (StringValue t)" if "(u, src) \<in> set (schemaSources s)" for u src
    proof -
      from that have "asString (schema src) \<in> set ?strings" by force
      with a have "asString (schema src) = t" by simp
      with all [OF that] show ?thesis by simp
    qed
    with ne show "(\<lambda>(u, src). schema src) ` set (schemaSources s) = {Some (StringValue t)}"
      by (intro singleton_setI) auto
  qed
  show ?thesis
  proof (cases "length (OrderedSet_of ?strings) = 1")
    case False
    then have "OrderedSet_of ?strings \<noteq> [t]" by auto
    then have "set ?strings \<noteq> {t}" by (simp add: OrderedSet_of_singleton)
    with True False img show ?thesis
      by (simp add: JSONSchemaInput_singleStringSchemaSource_def Let_def)
  next
    case one: True
    then obtain y where y: "OrderedSet_of ?strings = [y]" using length_one_singleton by blast
    then have "(set ?strings = {t}) = (y = t)"
      using OrderedSet_of_singleton [of ?strings t] by auto
    with True one y img show ?thesis
      by (simp add: JSONSchemaInput_singleStringSchemaSource_def Let_def first_def defined_def)
  qed
qed

lemma singleString_total:
  "\<exists>r. JSONSchemaInput_singleStringSchemaSource s = Inr r"
proof (cases "length (OrderedSet_of (map (\<lambda>(_, src). asString (schema src)) (schemaSources s))) = 1")
  case True
  then obtain y where "OrderedSet_of (map (\<lambda>(_, src). asString (schema src)) (schemaSources s)) = [y]"
    using length_one_singleton by blast
  then show ?thesis
    by (simp add: JSONSchemaInput_singleStringSchemaSource_def Let_def first_def defined_def)
next
  case False
  then show ?thesis
    by (simp add: JSONSchemaInput_singleStringSchemaSource_def Let_def)
qed




section \<open>Properties of InputData\<close>

lemma Input_addSource_same:
  "ident (snd (Input_addSource rd nrm source i)) = ident i \<and>
   kind (snd (Input_addSource rd nrm source i)) = kind i"
  by (auto simp: Input_addSource_def kind_def split: InputObject.splits Source.splits prod.splits)

lemma feedSource_found:
  "find (\<lambda>j. ident j = target) inputs = Some input \<Longrightarrow>
     snd (feedSource rd nrm source target inputs) =
       map (\<lambda>j. if ident j = target then snd (Input_addSource rd nrm source input) else j) inputs"
  by (simp add: feedSource_def split: prod.splits)

lemma feedSource_idents:
  "map ident (snd (feedSource rd nrm source target inputs)) = map ident inputs"
proof (cases "find (\<lambda>j. ident j = target) inputs")
  case None
  then show ?thesis by (simp add: feedSource_def)
next
  case (Some input)
  then have "ident input = target" by (auto simp: find_Some_iff)
  with Input_addSource_same [of rd nrm source input]
  have "ident (snd (Input_addSource rd nrm source input)) = target" by simp
  then have "map ident (map (\<lambda>j. if ident j = target
      then snd (Input_addSource rd nrm source input) else j) inputs) = map ident inputs"
    by (simp add: comp_def cong: map_cong)
  with feedSource_found [OF Some] show ?thesis by simp
qed

lemma feedSource_kinds:
  assumes "distinct (map ident inputs)"
  shows "map kind (snd (feedSource rd nrm source target inputs)) = map kind inputs"
proof (cases "find (\<lambda>j. ident j = target) inputs")
  case None
  then show ?thesis by (simp add: feedSource_def)
next
  case (Some input)
  then have mem: "input \<in> set inputs" and id: "ident input = target"
    by (auto simp: find_Some_iff)
  have same: "j = input" if "j \<in> set inputs" "ident j = target" for j
    using assms that mem id by (auto simp: distinct_map inj_on_def)
  have "kind (snd (Input_addSource rd nrm source input)) = kind input"
    using Input_addSource_same by blast
  with same have "kind (if ident j = target then snd (Input_addSource rd nrm source input) else j) = kind j"
    if "j \<in> set inputs" for j
    using that by auto
  then have "map kind (map (\<lambda>j. if ident j = target
      then snd (Input_addSource rd nrm source input) else j) inputs) = map kind inputs"
    by (simp add: map_idI comp_def cong: map_cong)
  with feedSource_found [OF Some] show ?thesis by simp
qed

lemma addInput_idents: "distinct (map ident inputs) \<Longrightarrow> distinct (map ident (addInput i inputs))"
  by (simp add: addInput_def)

lemma addInput_kinds:
  "distinct (map kind inputs) \<Longrightarrow> kind i \<notin> set (map kind inputs) \<Longrightarrow>
     distinct (map kind (addInput i inputs))"
  by (simp add: addInput_def)

lemma InputData_addSource_invariant:
  assumes "distinct (map ident inputs)" and "distinct (map kind inputs)"
      and "kind makeInput = knd"
  shows "distinct (map ident (snd (InputData_addSource rd nrm knd source makeInput inputs))) \<and>
         distinct (map kind (snd (InputData_addSource rd nrm knd source makeInput inputs)))"
proof (cases "find (\<lambda>i. kind i = knd) inputs")
  case None
  then have "knd \<notin> set (map kind inputs)" by (auto simp: find_None_iff)
  with assms have "distinct (map ident (addInput makeInput inputs))"
    and "distinct (map kind (addInput makeInput inputs))"
    by (simp_all add: addInput_idents addInput_kinds)
  with None show ?thesis
    by (simp add: InputData_addSource_def feedSource_idents feedSource_kinds)
next
  case (Some input)
  with assms show ?thesis
    by (simp add: InputData_addSource_def feedSource_idents feedSource_kinds)
qed

lemma InputData_addSources_invariant:
  assumes "distinct (map ident inputs)" and "distinct (map kind inputs)"
      and "list_all (\<lambda>(knd, source, makeInput). kind makeInput = knd) calls"
  shows "distinct (map ident (InputData_addSources rd nrm calls inputs)) \<and>
         distinct (map kind (InputData_addSources rd nrm calls inputs))"
  using assms
proof (induction calls arbitrary: inputs)
  case Nil
  then show ?case by (simp add: InputData_addSources_def)
next
  case (Cons c calls)
  obtain knd source makeInput where c: "c = (knd, source, makeInput)" by (cases c)
  with Cons.prems(3) have k: "kind makeInput = knd"
    and rest: "list_all (\<lambda>(knd, source, makeInput). kind makeInput = knd) calls"
    by simp_all
  from InputData_addSource_invariant [OF Cons.prems(1,2) k, of rd nrm source]
  have "distinct (map ident (snd (InputData_addSource rd nrm knd source makeInput inputs)))"
    and "distinct (map kind (snd (InputData_addSource rd nrm knd source makeInput inputs)))"
    by simp_all
  from Cons.IH [OF this rest] show ?case
    by (simp add: InputData_addSources_def c)
qed

lemma find_kind_None:
  "(find (\<lambda>i. kind i = knd) inputs = None) = (knd \<notin> set (map kind inputs))"
  by (auto simp: find_None_iff)

lemma InputData_addSource_kinds:
  "distinct (map ident inputs) \<Longrightarrow>
     map kind (snd (InputData_addSource rd nrm knd source makeInput inputs)) =
       (case find (\<lambda>i. kind i = knd) inputs of
          Some input \<Rightarrow> map kind inputs
        | None \<Rightarrow> map kind (addInput makeInput inputs))"
  by (simp add: InputData_addSource_def feedSource_kinds addInput_idents split: option.splits)

lemma InputData_addSource_idents:
  "map ident (snd (InputData_addSource rd nrm knd source makeInput inputs)) =
     (case find (\<lambda>i. kind i = knd) inputs of
        Some input \<Rightarrow> map ident inputs
      | None \<Rightarrow> map ident (addInput makeInput inputs))"
  by (simp add: InputData_addSource_def feedSource_idents split: option.splits)

text \<open>
  \<open>addInput\<close> compares by identity: two distinct \<open>JSONInput\<close> objects are both
  registered, and the registry holds two processors of the kind \<open>json\<close>. And
  \<open>addSource\<close> looks for the kind it is called with, not for the kind of the object
  its factory makes: called twice for \<open>json\<close> with a factory of \<open>JSONSchemaInput\<close>
  objects it finds nothing under \<open>json\<close> either time and registers two processors of
  the kind \<open>schema\<close>.
\<close>

theorem registry_holds_kind_twice:
  "map kind
     (addInput \<lparr>ident = 20, object = JSONInputObject (JSONInput_new 0)\<rparr>
        (addInput \<lparr>ident = 10, object = JSONInputObject (JSONInput_new 0)\<rparr>
           ([] :: (nat \<times> string, nat, nat, URI) Input list))) =
     [''json'', ''json''] \<and>
   map kind
     (InputData_addSources exampleReader plainURI
        [(''json'',
          JSONSchemaSource \<lparr>name = ''A'', uris = None, schema = Some (StringValue ''{}''),
                            isConverted = None\<rparr>,
          \<lparr>ident = 10, object = JSONSchemaInputObject (JSONSchemaInput_new None [])\<rparr>),
         (''json'',
          JSONSchemaSource \<lparr>name = ''B'', uris = None, schema = Some (StringValue ''{}''),
                            isConverted = None\<rparr>,
          \<lparr>ident = 20, object = JSONSchemaInputObject (JSONSchemaInput_new None [])\<rparr>)]
        ([] :: (nat \<times> string, nat, nat, URI) Input list)) =
     [''schema'', ''schema'']"
proof -
  let ?i1 = "\<lparr>ident = 10, object = JSONSchemaInputObject (JSONSchemaInput_new None [])\<rparr> ::
      (nat \<times> string, nat, nat, URI) Input"
  let ?i2 = "\<lparr>ident = 20, object = JSONSchemaInputObject (JSONSchemaInput_new None [])\<rparr> ::
      (nat \<times> string, nat, nat, URI) Input"
  let ?a = "JSONSchemaSource \<lparr>name = ''A'', uris = None, schema = Some (StringValue ''{}''),
      isConverted = None\<rparr>"
  let ?b = "JSONSchemaSource \<lparr>name = ''B'', uris = None, schema = Some (StringValue ''{}''),
      isConverted = None\<rparr>"
  let ?r1 = "snd (InputData_addSource exampleReader plainURI ''json'' ?a ?i1 [])"
  let ?r2 = "snd (InputData_addSource exampleReader plainURI ''json'' ?b ?i2 ?r1)"
  have k1: "map kind ?r1 = [''schema'']" and d1: "map ident ?r1 = [10]"
    by (simp_all add: InputData_addSource_kinds InputData_addSource_idents addInput_def kind_def)
  have f1: "find (\<lambda>i. kind i = ''json'') ?r1 = None"
    by (simp only: find_kind_None k1) simp
  have d1': "distinct (map ident ?r1)" by (simp add: d1)
  have k2: "map kind ?r2 = [''schema'', ''schema'']"
    by (simp add: InputData_addSource_kinds [OF d1'] f1 addInput_def d1 k1) (simp add: kind_def)
  have "InputData_addSources exampleReader plainURI [(''json'', ?a, ?i1), (''json'', ?b, ?i2)] [] = ?r2"
    by (simp add: InputData_addSources_def)
  with k2 have r: "map kind (InputData_addSources exampleReader plainURI
      [(''json'', ?a, ?i1), (''json'', ?b, ?i2)] []) = [''schema'', ''schema'']"
    by simp
  have l: "map kind
     (addInput \<lparr>ident = 20, object = JSONInputObject (JSONInput_new 0)\<rparr>
        (addInput \<lparr>ident = 10, object = JSONInputObject (JSONInput_new 0)\<rparr>
           ([] :: (nat \<times> string, nat, nat, URI) Input list))) =
     [''json'', ''json'']"
    by (simp add: addInput_def kind_def)
  show ?thesis by (intro conjI l r)
qed

lemma find_ident:
  "distinct (map ident inputs) \<Longrightarrow> input \<in> set inputs \<Longrightarrow>
     find (\<lambda>j. ident j = ident input) inputs = Some input"
  by (induction inputs) (auto simp: image_iff)

lemma InputData_addSource_found:
  assumes "distinct (map ident inputs)" and "find (\<lambda>i. kind i = knd) inputs = Some input"
  shows "InputData_addSource rd nrm knd source makeInput inputs =
           (fst (Input_addSource rd nrm source input),
            map (\<lambda>j. if ident j = ident input
                      then snd (Input_addSource rd nrm source input) else j) inputs)"
proof -
  from assms(2) have "input \<in> set inputs" by (auto simp: find_Some_iff)
  with assms(1) have "find (\<lambda>j. ident j = ident input) inputs = Some input"
    by (rule find_ident)
  with assms(2) show ?thesis
    by (simp add: InputData_addSource_def feedSource_def split: prod.splits)
qed

lemma find_snoc_fresh:
  "\<forall>x \<in> set xs. \<not> P x \<Longrightarrow> P y \<Longrightarrow> find P (xs @ [y]) = Some y"
  by (induction xs) auto

lemma InputData_addSource_created:
  assumes "find (\<lambda>i. kind i = knd) inputs = None"
      and "ident makeInput \<notin> set (map ident inputs)"
  shows "InputData_addSource rd nrm knd source makeInput inputs =
           (fst (Input_addSource rd nrm source makeInput),
            inputs @ [snd (Input_addSource rd nrm source makeInput)])"
proof -
  from assms(2) have fresh: "\<forall>j \<in> set inputs. \<not> ident j = ident makeInput"
    by (metis image_eqI set_map)
  then have f: "find (\<lambda>j. ident j = ident makeInput) (inputs @ [makeInput]) = Some makeInput"
    by (rule find_snoc_fresh) simp
  from fresh have same: "map (\<lambda>j. if ident j = ident makeInput then x else j) inputs = inputs" for x
    by (induction inputs) auto
  from assms f show ?thesis
    by (simp add: InputData_addSource_def feedSource_def addInput_def same split: prod.splits)
qed

text \<open>
  C3 (amended): in a session that registers processors through \<open>InputData.addSource\<close>
  only, with every factory returning a processor of the kind it is called for, the
  registry holds at most one processor of each kind after every call, whether or not
  calls failed; the registered objects are pairwise distinct in every session. When a
  processor of the kind is registered already (looked up by equality of the kind
  strings), \<open>addSource\<close> reuses it: the factory's object is not registered, the source is
  handed to the processor found, the call fails exactly when that processor's
  \<open>addSource\<close> fails, and the registry afterwards is the one before with that processor
  in its state after the call. When no processor of the kind is registered,
  \<open>addSource\<close> registers the factory's new object at the end and hands the source to it.
\<close>

theorem InputData_addSource_reuses_processor:
  "(list_all (\<lambda>(knd, source, makeInput). kind makeInput = knd) calls \<longrightarrow>
      distinct (map kind (InputData_addSources rd nrm calls []))) \<and>
   distinct (map ident (InputData_addSources rd nrm calls [])) \<and>
   (distinct (map ident inputs) \<and> find (\<lambda>i. kind i = knd) inputs = Some input \<longrightarrow>
      InputData_addSource rd nrm knd source makeInput inputs =
        (fst (Input_addSource rd nrm source input),
         map (\<lambda>j. if ident j = ident input
                   then snd (Input_addSource rd nrm source input) else j) inputs)) \<and>
   (find (\<lambda>i. kind i = knd) inputs = None \<and> ident makeInput \<notin> set (map ident inputs) \<longrightarrow>
      InputData_addSource rd nrm knd source makeInput inputs =
        (fst (Input_addSource rd nrm source makeInput),
         inputs @ [snd (Input_addSource rd nrm source makeInput)]))"
proof (intro conjI impI)
  assume "list_all (\<lambda>(knd, source, makeInput). kind makeInput = knd) calls"
  with InputData_addSources_invariant [of "[]" calls rd nrm]
  show "distinct (map kind (InputData_addSources rd nrm calls []))" by simp
next
  have step: "distinct (map ident (snd (InputData_addSource rd nrm k src mk reg)))"
    if "distinct (map ident reg)" for k src mk and reg :: "('a, 'b, 'c, 'd) Input list"
    using that by (simp add: InputData_addSource_idents addInput_idents split: option.splits)
  have "distinct (map ident (InputData_addSources rd nrm calls reg))"
    if "distinct (map ident reg)" for reg :: "('a, 'b, 'c, 'd) Input list"
    using that
  proof (induction calls arbitrary: reg)
    case Nil
    then show ?case by (simp add: InputData_addSources_def)
  next
    case (Cons c calls)
    obtain k src mk where c: "c = (k, src, mk)" by (cases c)
    from Cons.IH [OF step [OF Cons.prems, of k src mk]] show ?case
      by (simp add: InputData_addSources_def c)
  qed
  from this [of "[]"] show "distinct (map ident (InputData_addSources rd nrm calls []))" by simp
next
  assume "distinct (map ident inputs) \<and> find (\<lambda>i. kind i = knd) inputs = Some input"
  then show "InputData_addSource rd nrm knd source makeInput inputs =
        (fst (Input_addSource rd nrm source input),
         map (\<lambda>j. if ident j = ident input
                   then snd (Input_addSource rd nrm source input) else j) inputs)"
    using InputData_addSource_found by blast
next
  assume "find (\<lambda>i. kind i = knd) inputs = None \<and> ident makeInput \<notin> set (map ident inputs)"
  then show "InputData_addSource rd nrm knd source makeInput inputs =
        (fst (Input_addSource rd nrm source makeInput),
         inputs @ [snd (Input_addSource rd nrm source makeInput)])"
    using InputData_addSource_created by blast
qed

theorem InputData_addSource_reuses_processor_witness:
  "list_all (\<lambda>(knd, source, makeInput). kind makeInput = knd)
     [(''json'',
       JSONSource \<lparr>sourceName = ''Person'', sourceSamples = [StringValue ''a''],
                   sourceDescription = None\<rparr>,
       \<lparr>ident = 10, object = JSONInputObject (JSONInput_new 0)\<rparr>),
      (''schema'',
       JSONSchemaSource \<lparr>name = ''A'', uris = None, schema = Some (StringValue ''{}''),
                         isConverted = None\<rparr>,
       \<lparr>ident = 20, object = JSONSchemaInputObject (JSONSchemaInput_new None [])\<rparr>),
      (''json'',
       JSONSource \<lparr>sourceName = ''Person'', sourceSamples = [StringValue ''b''],
                   sourceDescription = None\<rparr>,
       \<lparr>ident = 30, object = JSONInputObject (JSONInput_new 0)\<rparr>) ::
       string \<times> Source \<times> (nat \<times> string, nat, nat, URI) Input] \<and>
   map kind
     (InputData_addSources exampleReader plainURI
        [(''json'',
          JSONSource \<lparr>sourceName = ''Person'', sourceSamples = [StringValue ''a''],
                      sourceDescription = None\<rparr>,
          \<lparr>ident = 10, object = JSONInputObject (JSONInput_new 0)\<rparr>),
         (''schema'',
          JSONSchemaSource \<lparr>name = ''A'', uris = None, schema = Some (StringValue ''{}''),
                            isConverted = None\<rparr>,
          \<lparr>ident = 20, object = JSONSchemaInputObject (JSONSchemaInput_new None [])\<rparr>),
         (''json'',
          JSONSource \<lparr>sourceName = ''Person'', sourceSamples = [StringValue ''b''],
                      sourceDescription = None\<rparr>,
          \<lparr>ident = 30, object = JSONInputObject (JSONInput_new 0)\<rparr>)]
        ([] :: (nat \<times> string, nat, nat, URI) Input list)) = [''json'', ''schema''] \<and>
   distinct (map kind
     (InputData_addSources exampleReader plainURI
        [(''json'',
          JSONSource \<lparr>sourceName = ''Person'', sourceSamples = [StringValue ''a''],
                      sourceDescription = None\<rparr>,
          \<lparr>ident = 10, object = JSONInputObject (JSONInput_new 0)\<rparr>),
         (''schema'',
          JSONSchemaSource \<lparr>name = ''A'', uris = None, schema = Some (StringValue ''{}''),
                            isConverted = None\<rparr>,
          \<lparr>ident = 20, object = JSONSchemaInputObject (JSONSchemaInput_new None [])\<rparr>),
         (''json'',
          JSONSource \<lparr>sourceName = ''Person'', sourceSamples = [StringValue ''b''],
                      sourceDescription = None\<rparr>,
          \<lparr>ident = 30, object = JSONInputObject (JSONInput_new 0)\<rparr>)]
        ([] :: (nat \<times> string, nat, nat, URI) Input list))) \<and>
   InputData_addSource exampleReader plainURI ''json''
     (JSONSource \<lparr>sourceName = ''Person'', sourceSamples = [StringValue ''b''],
                  sourceDescription = None\<rparr>)
     \<lparr>ident = 30, object = JSONInputObject (JSONInput_new 0)\<rparr>
     [\<lparr>ident = 10, object = JSONInputObject (JSONInput_new 0)\<rparr> ::
        (nat \<times> string, nat, nat, URI) Input] =
     (None,
      [\<lparr>ident = 10,
        object = JSONInputObject
          \<lparr>compressedJSON = 1,
           jsonTopLevels =
             [(''Person'', \<lparr>samples = [(0, ''b'')], description = None\<rparr>)]\<rparr>\<rparr>]) \<and>
   map ident
     (snd (InputData_addSource exampleReader plainURI ''schema''
        (JSONSchemaSource \<lparr>name = ''A'', uris = None, schema = Some (StringValue ''{}''),
                           isConverted = None\<rparr>)
        \<lparr>ident = 20, object = JSONSchemaInputObject (JSONSchemaInput_new None [])\<rparr>
        [\<lparr>ident = 10, object = JSONInputObject (JSONInput_new 0)\<rparr> ::
           (nat \<times> string, nat, nat, URI) Input])) = [10, 20]"
proof -
  let ?i1 = "\<lparr>ident = 10, object = JSONInputObject (JSONInput_new 0)\<rparr> ::
      (nat \<times> string, nat, nat, URI) Input"
  let ?i2 = "\<lparr>ident = 20, object = JSONSchemaInputObject (JSONSchemaInput_new None [])\<rparr> ::
      (nat \<times> string, nat, nat, URI) Input"
  let ?i3 = "\<lparr>ident = 30, object = JSONInputObject (JSONInput_new 0)\<rparr> ::
      (nat \<times> string, nat, nat, URI) Input"
  let ?a = "JSONSource \<lparr>sourceName = ''Person'', sourceSamples = [StringValue ''a''],
      sourceDescription = None\<rparr>"
  let ?b = "JSONSource \<lparr>sourceName = ''Person'', sourceSamples = [StringValue ''b''],
      sourceDescription = None\<rparr>"
  let ?c = "JSONSchemaSource \<lparr>name = ''A'', uris = None, schema = Some (StringValue ''{}''),
      isConverted = None\<rparr>"
  let ?calls = "[(''json'', ?a, ?i1), (''schema'', ?c, ?i2), (''json'', ?b, ?i3)]"
  have h1: "list_all (\<lambda>(knd, source, makeInput). kind makeInput = knd) ?calls"
    by (simp add: kind_def)
  note inst = InputData_addSource_reuses_processor
    [of ?calls exampleReader plainURI "[?i1]" "''json''" ?i1 ?b ?i3]
  from inst h1 have r1: "distinct (map kind (InputData_addSources exampleReader plainURI ?calls []))"
    by blast
  have h2: "distinct (map ident [?i1]) \<and> find (\<lambda>i. kind i = ''json'') [?i1] = Some ?i1"
    by (simp add: kind_def)
  from inst h2 have "InputData_addSource exampleReader plainURI ''json'' ?b ?i3 [?i1] =
      (fst (Input_addSource exampleReader plainURI ?b ?i1),
       map (\<lambda>j. if ident j = ident ?i1
                 then snd (Input_addSource exampleReader plainURI ?b ?i1) else j) [?i1])"
    by blast
  then have r2: "InputData_addSource exampleReader plainURI ''json'' ?b ?i3 [?i1] =
      (None,
       [\<lparr>ident = 10,
         object = JSONInputObject
           \<lparr>compressedJSON = 1,
            jsonTopLevels =
              [(''Person'', \<lparr>samples = [(0, ''b'')], description = None\<rparr>)]\<rparr>\<rparr>])"
    by (simp add: Input_addSource_def JSONInput_addSource_def exampleReader_def JSONInput_new_def
        addSample_def Let_def)
  have h3: "find (\<lambda>i. kind i = ''schema'') [?i1] = None \<and> ident ?i2 \<notin> set (map ident [?i1])"
    by (simp add: kind_def)
  from InputData_addSource_reuses_processor
    [of ?calls exampleReader plainURI "[?i1]" "''schema''" ?i1 ?c ?i2] h3
  have "InputData_addSource exampleReader plainURI ''schema'' ?c ?i2 [?i1] =
      (fst (Input_addSource exampleReader plainURI ?c ?i2),
       [?i1] @ [snd (Input_addSource exampleReader plainURI ?c ?i2)])"
    by blast
  then have r3: "map ident (snd (InputData_addSource exampleReader plainURI ''schema'' ?c ?i2 [?i1])) =
      [10, 20]"
    using Input_addSource_same [of exampleReader plainURI ?c ?i2] by simp
  let ?r1 = "snd (InputData_addSource exampleReader plainURI ''json'' ?a ?i1 [])"
  let ?r2 = "snd (InputData_addSource exampleReader plainURI ''schema'' ?c ?i2 ?r1)"
  let ?r3 = "snd (InputData_addSource exampleReader plainURI ''json'' ?b ?i3 ?r2)"
  have k1: "map kind ?r1 = [''json'']" and d1: "map ident ?r1 = [10]"
    by (simp_all add: InputData_addSource_kinds InputData_addSource_idents addInput_def kind_def)
  have f1: "find (\<lambda>i. kind i = ''schema'') ?r1 = None"
    by (simp only: find_kind_None k1) simp
  have d1': "distinct (map ident ?r1)" by (simp add: d1)
  have d2: "map ident ?r2 = [10, 20]"
    by (simp add: InputData_addSource_idents f1 addInput_def d1)
  have k2: "map kind ?r2 = [''json'', ''schema'']"
    by (simp add: InputData_addSource_kinds [OF d1'] f1 addInput_def d1 k1) (simp add: kind_def)
  have f2: "find (\<lambda>i. kind i = ''json'') ?r2 \<noteq> None"
    by (simp only: find_kind_None k2) simp
  have d2': "distinct (map ident ?r2)" by (simp add: d2)
  from f2 obtain input where f2': "find (\<lambda>i. kind i = ''json'') ?r2 = Some input"
    by blast
  have "map kind ?r3 = map kind ?r2"
    by (simp only: InputData_addSource_kinds [OF d2'] f2' option.case)
  then have k3: "map kind ?r3 = [''json'', ''schema'']"
    by (simp only: k2)
  have "InputData_addSources exampleReader plainURI ?calls [] = ?r3"
    by (simp add: InputData_addSources_def)
  with k3 have r0: "map kind (InputData_addSources exampleReader plainURI ?calls []) =
      [''json'', ''schema'']"
    by simp
  show ?thesis by (intro conjI h1 r0 r1 r2 r3)
qed

lemma Input_singleStringSchemaSource_total:
  "Input_singleStringSchemaSource i = Inr (reportedString i)"
proof (cases "object i")
  case (JSONInputObject s)
  then show ?thesis by (simp add: reportedString_def Input_singleStringSchemaSource_def)
next
  case (JSONSchemaInputObject s)
  obtain r where "JSONSchemaInput_singleStringSchemaSource s = Inr r"
    using singleString_total by blast
  with JSONSchemaInputObject show ?thesis
    by (simp add: reportedString_def Input_singleStringSchemaSource_def)
qed

lemma mapResults_total: "(\<And>x. f x = Inr (g x)) \<Longrightarrow> mapResults f xs = Inr (map g xs)"
  by (induction xs) simp_all

lemma set_map_filter_Some: "set (List.map_filter f xs) = {y. Some y \<in> set (map f xs)}"
  by (induction xs) (auto split: option.splits)

lemma first_all_same: "xs \<noteq> [] \<Longrightarrow> set xs = {t} \<Longrightarrow> first xs = Some t"
  by (cases xs) (auto simp: first_def)

text \<open>
  C4: \<open>InputData.singleStringSchemaSource\<close> looks only at the strings the processors
  report (\<open>undefined\<close> answers are dropped). When they report more than one distinct
  string it fails with a panic; otherwise it returns the first reported string, which
  is the only one, or \<open>undefined\<close> when none is reported. Several processors that
  report the same string give that string, not a failure.
\<close>

theorem InputData_singleStringSchemaSource_sole:
  "InputData_singleStringSchemaSource inputs =
     (if 1 < card (set (List.map_filter reportedString inputs))
      then Inl (Panic ''We have more than one input with a string schema source'')
      else Inr (first (List.map_filter reportedString inputs)))"
proof -
  define reported where "reported = List.map_filter reportedString inputs"
  let ?answers = "map reportedString inputs"
  let ?schemaStrings = "filter (\<lambda>s. s \<noteq> None) (OrderedSet_of ?answers)"
  have run: "mapResults Input_singleStringSchemaSource inputs = Inr ?answers"
    by (rule mapResults_total) (rule Input_singleStringSchemaSource_total)
  have set_rep: "set reported = {t. Some t \<in> set ?answers}"
    unfolding reported_def by (rule set_map_filter_Some)
  have set_ss: "set ?schemaStrings = Some ` set reported"
  proof (rule set_eqI)
    fix a
    show "(a \<in> set ?schemaStrings) = (a \<in> Some ` set reported)"
    proof (cases a)
      case None
      then show ?thesis by auto
    next
      case (Some t)
      have "(Some t \<in> Some ` set reported) = (t \<in> set reported)" by auto
      also have "\<dots> = (Some t \<in> set ?answers)" by (simp only: set_rep mem_Collect_eq)
      finally show ?thesis using Some by (simp add: set_OrderedSet_of)
    qed
  qed
  define ss where "ss = ?schemaStrings"
  have set_ss': "set ss = Some ` set reported" unfolding ss_def by (rule set_ss)
  have "distinct ss" unfolding ss_def by (simp add: distinct_OrderedSet_of)
  then have "length ss = card (set ss)" by (rule distinct_card [symmetric])
  also have "\<dots> = card (set reported)" by (simp only: set_ss' card_image [OF inj_Some])
  finally have len: "length ss = card (set reported)" .
  have unfold: "InputData_singleStringSchemaSource inputs =
      (if length ss > 1
       then Inl (Panic ''We have more than one input with a string schema source'')
       else Inr (case first ss of None \<Rightarrow> None | Some a \<Rightarrow> a))"
    unfolding ss_def using run by (simp add: InputData_singleStringSchemaSource_def Let_def)
  have "InputData_singleStringSchemaSource inputs =
      (if 1 < card (set reported)
       then Inl (Panic ''We have more than one input with a string schema source'')
       else Inr (first reported))"
  proof (cases "1 < card (set reported)")
    case True
    with len unfold show ?thesis by simp
  next
    case False
    have res: "(case first ss of None \<Rightarrow> None | Some a \<Rightarrow> a) = first reported"
    proof (cases ss)
      case Nil
      with set_ss' have "set reported = {}" by simp
      then have "reported = []" by simp
      with Nil show ?thesis by (simp add: first_def)
    next
      case (Cons a rest)
      with len have "Suc (length rest) = card (set reported)" by simp
      with False have "length rest = 0" by arith
      then have "rest = []" by simp
      with Cons have ss: "ss = [a]" by simp
      have "a \<in> set ss" using ss by simp
      then have "a \<in> Some ` set reported" by (simp only: set_ss')
      then obtain t where a: "a = Some t" and t: "t \<in> set reported" by (rule imageE)
      have same: "u = t" if "u \<in> set reported" for u
      proof -
        from that have "Some u \<in> Some ` set reported" by (rule imageI)
        then have "Some u \<in> set ss" by (simp only: set_ss')
        with ss a show ?thesis by simp
      qed
      have rep: "set reported = {t}"
      proof (rule singleton_setI)
        from t show "set reported \<noteq> {}" by auto
      next
        fix u
        assume "u \<in> set reported"
        then show "u = t" by (rule same)
      qed
      from t have "reported \<noteq> []" by (cases reported) simp_all
      with rep have "first reported = Some t" by (rule first_all_same [rotated])
      with ss a show ?thesis by (simp add: first_def)
    qed
    from False len have "\<not> 1 < length ss" by simp
    with unfold res False show ?thesis by simp
  qed
  then show ?thesis by (simp only: reported_def)
qed

lemma example_single:
  "JSONSchemaInput_singleStringSchemaSource
     \<lparr>schemaStore = None, attributeProducers = [], schemaInputs = [],
      schemaSources =
        [(u1, \<lparr>name = n1, uris = None, schema = Some (StringValue t), isConverted = None\<rparr>),
         (u2, \<lparr>name = n2, uris = None, schema = Some (StringValue t), isConverted = None\<rparr>)],
      topLevels = [], needIR = True\<rparr> = Inr (Some t)"
  by (simp add: singleString_Some)

theorem InputData_singleStringSchemaSource_sole_witness:
  "InputData_singleStringSchemaSource
     [\<lparr>ident = 10, object = JSONInputObject (JSONInput_new 0)\<rparr>,
      \<lparr>ident = 20, object = JSONSchemaInputObject
         \<lparr>schemaStore = None, attributeProducers = [], schemaInputs = [],
          schemaSources =
            [(newURI ''-1'', \<lparr>name = ''A'', uris = None, schema = Some (StringValue ''{}''),
                               isConverted = None\<rparr>),
             (newURI ''-2'', \<lparr>name = ''B'', uris = None, schema = Some (StringValue ''{}''),
                               isConverted = None\<rparr>)],
          topLevels = [], needIR = True\<rparr>\<rparr>,
      \<lparr>ident = 30, object = JSONSchemaInputObject
         \<lparr>schemaStore = None, attributeProducers = [], schemaInputs = [],
          schemaSources =
            [(newURI ''-1'', \<lparr>name = ''C'', uris = None, schema = Some (StringValue ''{}''),
                               isConverted = None\<rparr>),
             (newURI ''-1'', \<lparr>name = ''C'', uris = None, schema = Some (StringValue ''{}''),
                               isConverted = None\<rparr>)],
          topLevels = [], needIR = True\<rparr>\<rparr> ::
        (nat \<times> string, nat, nat, URI) Input] =
   Inr (Some ''{}'')"
  by (subst InputData_singleStringSchemaSource_sole)
     (simp add: reportedString_def Input_singleStringSchemaSource_def
        JSONInput_singleStringSchemaSource_def example_single first_def)

end
